theory Spec2Isabelle
  imports Complex_Main "HOL-Library.Word"
begin

chapter \<open>Definitions\<close>

section \<open>Shared vocabulary\<close>

text \<open>
  A \<open>uuid.UUID\<close> is sixteen opaque bytes. A \<open>time.Time\<close> is read as the number of
  nanoseconds since Go's zero instant, so \<open>IsZero\<close> is equality with 0, \<open>Add\<close> is
  addition and \<open>Before\<close>/\<open>After\<close> are the strict orders. A \<open>time.Duration\<close> is a
  number of nanoseconds. A \<open>map[string]float64\<close> is a partial map into the reals;
  none of the modelled code does floating-point arithmetic on the stored values
  except where noted.
\<close>

type_synonym UUID = "128 word"
type_synonym time = int
type_synonym duration = int
type_synonym metric_map = "string \<rightharpoonup> real"

definition IsZero :: "time \<Rightarrow> bool" where
  "IsZero t = (t = 0)"


definition Before :: "time \<Rightarrow> time \<Rightarrow> bool" where
  "Before t u = (t < u)"

text \<open>Run-time panics of the Go code are values of the model.\<close>

datatype panic = NilPointerDereference | IndexOutOfRange

text \<open>
  A buffered channel on which only signals travel is the number of items it holds.
  A send into a full channel blocks the sender: \<open>None\<close>.
\<close>

definition chan_send :: "nat \<Rightarrow> nat \<Rightarrow> nat option" where
  "chan_send capacity n = (if n < capacity then Some (Suc n) else None)"

section \<open>Package metrics: the repository\<close>

datatype error =
    InstanceExists UUID
  | InstanceNotFound UUID
  | BackendNotFound UUID
  | PatternNotFound string
  | ParseError string
  | StorageError string

text \<open>
  Modelled from the spec: \<open>conditional.Condition\<close> is declared in package
  conditional, which is not among the sources. The spec gives its fields as
  metric name, operator, threshold, activeFor duration, triggerTime timestamp and
  status boolean; \<open>GetActiveFor\<close> returns the activation duration. Its predicate
  \<open>IsTrue\<close> is a parameter wherever the code calls it.
\<close>

record Condition =
  Metric_c :: string
  Operator :: string
  Threshold :: real
  ActiveFor :: duration
  TriggerTime :: time
  Status_c :: bool

definition GetActiveFor :: "Condition \<Rightarrow> duration" where
  "GetActiveFor c = ActiveFor c"

record Alert =
  Type :: string
  BackendID :: UUID
  Metric :: string
  Threshhold :: real
  Value :: real
  StartTime :: time
  EndTime :: time
  SendTime :: time

record Metrics =
  Route_m :: string
  BackendID_m :: UUID
  ResponseStatus :: int
  RequestMethod :: string
  ContentLength_m :: int
  UpstreamResponseTime :: int
  UpstreamRequestTime :: int
  DownstreamAddr :: string

text \<open>A Go map value may be nil: \<open>None\<close>.\<close>

record ScrapeMetrics =
  BackendID_s :: UUID
  Metrics_s :: "metric_map option"

text \<open>
  \<open>AlertChannel\<close> is unbuffered; the model keeps the alerts sent on it, oldest first.
  \<open>stopMonitoring\<close> is \<open>make(chan int, 1)\<close>: the number of buffered signals.
\<close>

record MonitoredBackend =
  ID :: UUID
  Route :: string
  ScrapeURL :: string
  Errors :: int
  nextTimeout :: duration
  MetricThreshholds :: "Condition list"
  AlertChannel :: "Alert list"
  stopMonitoring :: nat
  activeAlerts :: "string \<rightharpoonup> Alert"
  ScrapeMetrics :: "string list"
  ScrapeMetricPuffer :: "metric_map option"

text \<open>One call of \<open>Storage.Write\<close>, in the order of its arguments.\<close>

record StorageWrite =
  route_w :: string
  backend_w :: UUID
  custom_w :: "metric_map option"
  responseTime_w :: int
  contentLength_w :: int
  status_w :: int

text \<open>
  \<open>Backends\<close> maps an ID to a pointer; \<open>heap\<close> holds the objects the pointers name,
  since the monitor loop of a backend keeps its pointer after the entry is deleted.
  \<open>Storage\<close> is the sequence of writes handed to the store and \<open>PromMetrics\<close> the
  sequence of measurements handed to the Prometheus adapter.
\<close>

type_synonym addr = nat

record Repository =
  Storage :: "StorageWrite list"
  PromMetrics :: "Metrics list"
  Backends :: "UUID \<rightharpoonup> addr"
  heap :: "addr \<Rightarrow> MonitoredBackend"

subsection \<open>RemoveBackend\<close>

text \<open>
  The loop over the keys of \<open>m.Backends\<close> that compares each key with \<open>backendID\<close>
  finds the key exactly when the map holds it. The result is \<open>None\<close> while the send on
  the stop channel blocks.
\<close>

definition RemoveBackend :: "Repository \<Rightarrow> UUID \<Rightarrow> (Repository \<times> error option) option" where
  "RemoveBackend m backendID =
     (case Backends m backendID of
        None \<Rightarrow> Some (m, Some (InstanceNotFound backendID))
      | Some p \<Rightarrow>
          (case chan_send 1 (stopMonitoring (heap m p)) of
             None \<Rightarrow> None
           | Some n \<Rightarrow>
               Some (m\<lparr>heap := (heap m)(p := (heap m p)\<lparr>stopMonitoring := n\<rparr>),
                        Backends := (Backends m)(backendID := None)\<rparr>, None)))"

text \<open>
  The monitor loop of the backend at \<open>p\<close> takes a signal from its stop channel, and
  what a completed \<open>RemoveBackend\<close> of a registered ID has done: no error, the signal
  buffered in the stop channel of the backend's object, the entry deleted, every other
  entry and the store as before.
\<close>

definition monitor_receives :: "Repository \<Rightarrow> addr \<Rightarrow> Repository" where
  "monitor_receives m p =
     m\<lparr>heap := (heap m)(p := (heap m p)\<lparr>stopMonitoring := stopMonitoring (heap m p) - 1\<rparr>)\<rparr>"

definition removed :: "Repository \<Rightarrow> UUID \<Rightarrow> addr \<Rightarrow> (Repository \<times> error option) option \<Rightarrow> bool" where
  "removed m backendID p res =
     (\<exists>m'. res = Some (m', None)
        \<and> stopMonitoring (heap m' p) = 1
        \<and> Backends m' backendID = None
        \<and> (\<forall>k. k \<noteq> backendID \<longrightarrow> Backends m' k = Backends m k)
        \<and> Storage m' = Storage m)"

text \<open>
  The body of the loop of \<open>Repository.Stop\<close> for the backend at \<open>p\<close>:
  \<open>b.stopMonitoring <- 1\<close>. The entry stays in the map.
\<close>

definition stop_backend :: "Repository \<Rightarrow> addr \<Rightarrow> Repository option" where
  "stop_backend m p =
     (case chan_send 1 (stopMonitoring (heap m p)) of
        None \<Rightarrow> None
      | Some n \<Rightarrow> Some (m\<lparr>heap := (heap m)(p := (heap m p)\<lparr>stopMonitoring := n\<rparr>)\<rparr>))"

subsection \<open>Listen\<close>

datatype listen_input =
    FromInChannel Metrics
  | FromScrapeChannel ScrapeMetrics
  | FromShutdown

datatype listen_result = Continue Repository | Return Repository | Panic panic

text \<open>
  One turn of the \<open>select\<close> in \<open>Listen\<close>. The two branches of the nil test on the
  scrape buffer both write the buffer (nil or not) with the measurement. The Prometheus
  adapter and counters are outside the sources; their calls are taken to return.
\<close>

definition Listen_step :: "Repository \<Rightarrow> listen_input \<Rightarrow> listen_result" where
  "Listen_step m inp =
     (case inp of
        FromInChannel metrics \<Rightarrow>
          (let m1 = m\<lparr>PromMetrics := PromMetrics m @ [metrics]\<rparr> in
           case Backends m1 (BackendID_m metrics) of
             None \<Rightarrow> Continue m1
           | Some p \<Rightarrow>
               Continue (m1\<lparr>Storage := Storage m1 @
                 [\<lparr>route_w = Route_m metrics, backend_w = BackendID_m metrics,
                   custom_w = ScrapeMetricPuffer (heap m1 p),
                   responseTime_w = UpstreamResponseTime metrics,
                   contentLength_w = ContentLength_m metrics,
                   status_w = ResponseStatus metrics\<rparr>]\<rparr>))
      | FromScrapeChannel scrapeMetrics \<Rightarrow>
          (case Backends m (BackendID_s scrapeMetrics) of
             None \<Rightarrow> Panic NilPointerDereference
           | Some p \<Rightarrow>
               Continue (m\<lparr>heap := (heap m)
                 (p := (heap m p)\<lparr>ScrapeMetricPuffer := Metrics_s scrapeMetrics\<rparr>)\<rparr>))
      | FromShutdown \<Rightarrow> Return m)"

fun Listen :: "Repository \<Rightarrow> listen_input list \<Rightarrow> listen_result" where
  "Listen m [] = Continue m"
| "Listen m (inp # inps) =
     (case Listen_step m inp of
        Continue m' \<Rightarrow> Listen m' inps
      | Return m' \<Rightarrow> Return m'
      | Panic e \<Rightarrow> Panic e)"

text \<open>A repository with one registered backend, as \<open>RegisterBackend\<close> leaves it.\<close>

definition backend0 :: MonitoredBackend where
  "backend0 = \<lparr>ID = 7, Route = ''r'', ScrapeURL = [], Errors = 0, nextTimeout = 0,
     MetricThreshholds = [], AlertChannel = [], stopMonitoring = 0,
     activeAlerts = Map.empty, ScrapeMetrics = [], ScrapeMetricPuffer = Some Map.empty\<rparr>"

definition repo0 :: Repository where
  "repo0 = \<lparr>Storage = [], PromMetrics = [], Backends = [7 \<mapsto> 0], heap = (\<lambda>_. backend0)\<rparr>"

text \<open>The same repository with a signal buffered in the stop channel of its backend.\<close>

definition repo1 :: Repository where
  "repo1 = repo0\<lparr>heap := (heap repo0)(0 := backend0\<lparr>stopMonitoring := 1\<rparr>)\<rparr>"

definition request0 :: Metrics where
  "request0 = \<lparr>Route_m = ''r'', BackendID_m = 9, ResponseStatus = 200,
     RequestMethod = ''GET'', ContentLength_m = 12, UpstreamResponseTime = 5,
     UpstreamRequestTime = 0, DownstreamAddr = []\<rparr>"

subsection \<open>ReadRatesOfBackend\<close>

text \<open>
  Modelled from the spec: \<open>storage.Metric\<close> is declared in package storage, which is
  not among the sources. The spec gives the window aggregate as \<open>TotalResponses\<close>
  (integer), the five status counters (integers), \<open>ResponseTime\<close> (floating seconds),
  \<open>ContentLength\<close> (integer) and \<open>CustomMetrics\<close> (metric name to floating value).
  The field names are those \<open>ReadRatesOfBackend\<close> reads.
\<close>

record Metric =
  TotalResponses :: int
  ResponseStatus200 :: int
  ResponseStatus300 :: int
  ResponseStatus400 :: int
  ResponseStatus500 :: int
  ResponseStatus600 :: int
  ResponseTime :: real
  ContentLength :: int
  CustomMetrics :: metric_map

text \<open>Go's \<open>/\<close> on integers truncates towards zero.\<close>

definition quo :: "int \<Rightarrow> int \<Rightarrow> int" where
  "quo a b = (if (a < 0) = (b < 0) then \<bar>a\<bar> div \<bar>b\<bar> else - (\<bar>a\<bar> div \<bar>b\<bar>))"

text \<open>
  \<open>Storage.ReadBackend\<close> is an interface method: a parameter. The conversion
  \<open>float64(n)\<close> of an integer is \<open>of_int\<close> (exact below \<open>2 ^ 53\<close>). The keys are
  stored in the order of the source, the custom metrics last, so a custom metric
  named like a fixed key replaces it.
\<close>

definition ReadRatesOfBackend ::
  "(UUID \<Rightarrow> time \<Rightarrow> time \<Rightarrow> error + Metric) \<Rightarrow> UUID \<Rightarrow> time \<Rightarrow> time \<Rightarrow> error + metric_map" where
  "ReadRatesOfBackend ReadBackend backend start finish =
     (case ReadBackend backend start finish of
        Inl err \<Rightarrow> Inl err
      | Inr read \<Rightarrow>
          (let current = (if TotalResponses read = 0 then read\<lparr>TotalResponses := 1\<rparr> else read);
               metricRates =
                 [''2xxRate'' \<mapsto> of_int (quo (ResponseStatus200 current) (TotalResponses current)),
                  ''3xxRate'' \<mapsto> of_int (quo (ResponseStatus300 current) (TotalResponses current)),
                  ''4xxRate'' \<mapsto> of_int (quo (ResponseStatus400 current) (TotalResponses current)),
                  ''5xxRate'' \<mapsto> of_int (quo (ResponseStatus500 current) (TotalResponses current)),
                  ''6xxRate'' \<mapsto> of_int (quo (ResponseStatus600 current) (TotalResponses current)),
                  ''ResponseTime'' \<mapsto> ResponseTime current,
                  ''ContentLength'' \<mapsto> of_int (ContentLength current)]
           in Inr (metricRates ++ CustomMetrics current)))"

text \<open>The window of three points with statuses 200, 201 and 503.\<close>

definition window3 :: Metric where
  "window3 = \<lparr>TotalResponses = 3, ResponseStatus200 = 2, ResponseStatus300 = 0,
     ResponseStatus400 = 0, ResponseStatus500 = 1, ResponseStatus600 = 0,
     ResponseTime = 5 / 1000, ContentLength = 12, CustomMetrics = Map.empty\<rparr>"

subsection \<open>Scraping: getRowFromBody and scrapeJob\<close>

text \<open>
  \<open>strings.Split(s, " ")\<close> with a separator of one byte: the pieces between the
  occurrences of the separator, one more than there are occurrences.
\<close>

fun Split :: "string \<Rightarrow> char \<Rightarrow> string list" where
  "Split [] sep = [[]]"
| "Split (c # cs) sep =
     (if c = sep then [] # Split cs sep
      else (case Split cs sep of [] \<Rightarrow> [[c]] | piece # pieces \<Rightarrow> (c # piece) # pieces))"

text \<open>
  The lines a \<open>bufio.Scanner\<close> with the default split function yields for a body:
  the pieces between newlines, without one trailing carriage return each; an empty
  piece after the last newline is no line; the scanner stops at the first line that
  does not fit its buffer of \<open>MaxScanTokenSize\<close> bytes.
\<close>

definition MaxScanTokenSize :: nat where
  "MaxScanTokenSize = 64 * 1024"

definition dropCR :: "string \<Rightarrow> string" where
  "dropCR l = (if l \<noteq> [] \<and> last l = CHR 0x0D then butlast l else l)"

definition ScanLines :: "string \<Rightarrow> string list" where
  "ScanLines body =
     (let pieces = Split body (CHR 0x0A);
          found = (if last pieces = [] then butlast pieces else pieces)
      in map dropCR (takeWhile (\<lambda>l. length l < MaxScanTokenSize) found))"

text \<open>
  \<open>parseFloat\<close> rests on \<open>strconv.ParseFloat\<close> and floating-point arithmetic; it is a
  parameter \<open>pf\<close>. The result of \<open>getRowFromBody\<close> is its pair of value and error, or
  the panic of reading \<open>substrings[1]\<close> on a line without a space.
\<close>

fun getRowFromBody ::
  "(string \<Rightarrow> error + real) \<Rightarrow> string list \<Rightarrow> string \<Rightarrow> panic + (real \<times> error option)" where
  "getRowFromBody pf [] pattern = Inr (- 1, Some (PatternNotFound pattern))"
| "getRowFromBody pf (line # rest) pattern =
     (case Split line (CHR '' '') of
        [] \<Rightarrow> Inl IndexOutOfRange
      | s0 # others \<Rightarrow>
          if s0 = ''#'' then getRowFromBody pf rest pattern
          else if s0 = pattern then
            (case others of
               [] \<Rightarrow> Inl IndexOutOfRange
             | s1 # _ \<Rightarrow> (case pf s1 of Inl err \<Rightarrow> Inr (- 1, Some err) | Inr i \<Rightarrow> Inr (i, None)))
          else getRowFromBody pf rest pattern)"

text \<open>
  The loop of \<open>scrapeJob\<close> over the requested names: the error of a lookup is logged
  and the value stored under the name either way.
\<close>

fun scrape_names ::
  "(string \<Rightarrow> error + real) \<Rightarrow> string list \<Rightarrow> string list \<Rightarrow> metric_map \<Rightarrow> panic + metric_map" where
  "scrape_names pf ls [] metrics = Inr metrics"
| "scrape_names pf ls (name # names) metrics =
     (case getRowFromBody pf ls name of
        Inl p \<Rightarrow> Inl p
      | Inr (v, err) \<Rightarrow> scrape_names pf ls names (metrics(name \<mapsto> v)))"

text \<open>\<open>scrapeJob\<close> from the response body on: the record it sends on the scrape channel.\<close>

definition scrapeJob :: "(string \<Rightarrow> error + real) \<Rightarrow> MonitoredBackend \<Rightarrow> string \<Rightarrow> panic + ScrapeMetrics" where
  "scrapeJob pf instance body =
     (case scrape_names pf (ScanLines body) (ScrapeMetrics instance) Map.empty of
        Inl p \<Rightarrow> Inl p
      | Inr metrics \<Rightarrow> Inr \<lparr>BackendID_s = ID instance, Metrics_s = Some metrics\<rparr>)"

text \<open>The first token of a line, as \<open>getRowFromBody\<close> reads it.\<close>

definition first_token :: "string \<Rightarrow> string" where
  "first_token l = takeWhile (\<lambda>c. c \<noteq> CHR '' '') l"

text \<open>A backend that asks for two names and a body that holds one of them.\<close>

definition parse_digit :: "string \<Rightarrow> error + real" where
  "parse_digit s = (if s = ''1'' then Inr 1 else if s = ''2'' then Inr 2 else Inl (ParseError s))"

definition scraped0 :: MonitoredBackend where
  "scraped0 = backend0\<lparr>ScrapeMetrics := [''up'', ''missing'']\<rparr>"

definition body0 :: string where
  "body0 = ''up 1'' @ [CHR 0x0A]"

definition body1 :: string where
  "body1 = ''# HELP up'' @ [CHR 0x0D, CHR 0x0A] @ ''jobs 2'' @ [CHR 0x0A] @ ''up 1''"

subsection \<open>Monitor\<close>



































section \<open>Package router\<close>

text \<open>
  The radix tree is the library go-radix, outside the repository. It is taken by its
  contract: a tree holds a finite map from keys to values; \<open>Get\<close> looks a key up;
  \<open>Insert\<close> stores a value and tells whether it replaced one; \<open>LongestPrefix\<close> finds
  the longest key that is a prefix of the given string. The keys that are prefixes of
  \<open>s\<close> are the \<open>take n s\<close>, tried from the longest down.
\<close>

type_synonym 'h Tree = "string \<rightharpoonup> 'h"

definition radix_Get :: "'h Tree \<Rightarrow> string \<Rightarrow> 'h option" where
  "radix_Get t k = t k"

definition radix_Insert :: "'h Tree \<Rightarrow> string \<Rightarrow> 'h \<Rightarrow> 'h Tree \<times> bool" where
  "radix_Insert t k v = (t(k \<mapsto> v), t k \<noteq> None)"

fun LongestPrefix_upto :: "'h Tree \<Rightarrow> string \<Rightarrow> nat \<Rightarrow> (string \<times> 'h) option" where
  "LongestPrefix_upto t s 0 = (case t [] of None \<Rightarrow> None | Some v \<Rightarrow> Some ([], v))"
| "LongestPrefix_upto t s (Suc n) =
     (case t (take (Suc n) s) of
        Some v \<Rightarrow> Some (take (Suc n) s, v)
      | None \<Rightarrow> LongestPrefix_upto t s n)"

definition radix_LongestPrefix :: "'h Tree \<Rightarrow> string \<Rightarrow> (string \<times> 'h) option" where
  "radix_LongestPrefix t s = LongestPrefix_upto t s (length s)"

text \<open>
  \<open>strings.ToUpper\<close> on the ASCII letters (HTTP methods are ASCII tokens); other bytes
  are left as they are.
\<close>

definition upper_char :: "char \<Rightarrow> char" where
  "upper_char c =
     (case map_of (zip ''abcdefghijklmnopqrstuvwxyz'' ''ABCDEFGHIJKLMNOPQRSTUVWXYZ'') c of
        Some u \<Rightarrow> u
      | None \<Rightarrow> c)"

definition ToUpper :: "string \<Rightarrow> string" where
  "ToUpper s = map upper_char s"

datatype router_error =
    MethodEmpty
  | PrefixInvalid
  | HandleExists string string
  | UpdatedAnEntry

text \<open>
  A router maps a method to a pointer to its tree (\<open>None\<close>: nil). Handlers are values
  of a type \<open>'h\<close>; the error and not-found handlers are what \<open>ServeHTTP\<close> falls back to.
\<close>

record 'h Router =
  tree :: "string \<rightharpoonup> 'h Tree"

definition NewRouter :: "'h Router" where
  "NewRouter = \<lparr>tree = Map.empty\<rparr>"

text \<open>
  \<open>CheckIfHandleExists\<close> returns its two results and the router, whose map it extends
  with an empty tree for a method seen for the first time. The test
  \<open>string(prefix[0]) != "/"\<close> compares the first byte with the slash.
\<close>

definition CheckIfHandleExists ::
  "'h Router \<Rightarrow> string \<Rightarrow> string \<Rightarrow> 'h Router \<times> bool \<times> router_error option" where
  "CheckIfHandleExists r method prefix =
     (let err0 = (if method = [] then Some MethodEmpty else None);
          err = (if prefix = [] \<or> hd prefix \<noteq> CHR ''/'' then Some PrefixInvalid else err0)
      in case err of
           Some e \<Rightarrow> (r, False, Some e)
         | None \<Rightarrow>
             (case tree r method of
                None \<Rightarrow> (r\<lparr>tree := (tree r)(method \<mapsto> Map.empty)\<rparr>, False, None)
              | Some t \<Rightarrow>
                  (case radix_Get t prefix of
                     Some h \<Rightarrow> (r, True, Some (HandleExists method prefix))
                   | None \<Rightarrow> (r, False, None))))"

definition AddHandler ::
  "'h Router \<Rightarrow> string \<Rightarrow> string \<Rightarrow> 'h \<Rightarrow> panic + ('h Router \<times> router_error option)" where
  "AddHandler r method prefix handler =
     (let httpMethod = ToUpper method in
      case CheckIfHandleExists r httpMethod prefix of
        (r1, exists, Some err) \<Rightarrow> Inr (r1, Some err)
      | (r1, exists, None) \<Rightarrow>
          (case tree r1 httpMethod of
             None \<Rightarrow> Inl NilPointerDereference
           | Some t \<Rightarrow>
               (case radix_Insert t prefix handler of
                  (t', updated) \<Rightarrow>
                    Inr (r1\<lparr>tree := (tree r1)(httpMethod \<mapsto> t')\<rparr>,
                         if updated then Some UpdatedAnEntry else None))))"

text \<open>
  Which handler \<open>ServeHTTP\<close> calls for a request method and path. (A panic of that
  handler is recovered and handed to \<open>ErrorHandler\<close>; the default not-found handler
  answers 404.)
\<close>

datatype 'h served = ToHandler 'h | ToNotFoundHandler

definition ServeHTTP :: "'h Router \<Rightarrow> string \<Rightarrow> string \<Rightarrow> 'h served" where
  "ServeHTTP r reqMethod path =
     (case tree r reqMethod of
        Some t \<Rightarrow>
          (case radix_LongestPrefix t path of
             Some (k, h) \<Rightarrow> ToHandler h
           | None \<Rightarrow> ToNotFoundHandler)
      | None \<Rightarrow> ToNotFoundHandler)"

section \<open>Package route: the distribution vector\<close>

type_synonym u8 = "8 word"

text \<open>
  Modelled from the spec: \<open>Backend\<close> is declared in the route package's backend file,
  which is not among the sources. The spec gives it an opaque ID, a name, a weight and
  an active flag (with addresses, URLs and channels that the modelled code does not
  read); the weight is the \<open>uint8\<close> field \<open>Weigth\<close> that the sources read and write.
\<close>

record Backend =
  ID_b :: UUID
  Name :: string
  Weigth :: u8
  Active :: bool

text \<open>
  Modelled from the spec: \<open>GGT\<close> is defined elsewhere in the route package. The spec
  has it compute the greatest common divisor of the collected weights, 0 when there is
  none; the call site notes \<open>if 0, return 0\<close>.
\<close>

definition GGT :: "u8 list \<Rightarrow> u8" where
  "GGT ws = of_nat (fold gcd (map unat ws) 0)"

text \<open>
  \<open>Backends_r\<close> holds the entries of the map \<open>r.Backends\<close> in the order in which the
  \<open>range\<close> loop of \<open>updateWeights\<close> visits them (any order). The vector holds pointers
  to backends, \<open>None\<close> for nil.
\<close>

record Route =
  Backends_r :: "Backend list"
  NextTargetDistr :: "Backend option list"
  lenNextTargetDistr :: nat

text \<open>The first loop: the weights of the active backends fill \<open>listWeights\<close> from index 0.\<close>

fun collect_active ::
  "Backend list \<Rightarrow> u8 list \<Rightarrow> Backend list \<Rightarrow> nat \<Rightarrow> panic + (u8 list \<times> Backend list)" where
  "collect_active [] listWeights activeBackends i = Inr (listWeights, activeBackends)"
| "collect_active (backend # rest) listWeights activeBackends i =
     (if Active backend then
        (if i < length listWeights
         then collect_active rest (listWeights[i := Weigth backend]) (activeBackends @ [backend]) (Suc i)
         else Inl IndexOutOfRange)
      else collect_active rest listWeights activeBackends i)"

text \<open>The inner loop writes the backend \<open>n\<close> times from index \<open>k\<close> on.\<close>

fun fill_backend ::
  "Backend option list \<Rightarrow> nat \<Rightarrow> Backend \<Rightarrow> nat \<Rightarrow> panic + (Backend option list \<times> nat)" where
  "fill_backend distr k backend 0 = Inr (distr, k)"
| "fill_backend distr k backend (Suc n) =
     (if k < length distr then fill_backend (distr[k := Some backend]) (Suc k) backend n
      else Inl IndexOutOfRange)"

fun fill_distr ::
  "Backend option list \<Rightarrow> nat \<Rightarrow> Backend list \<Rightarrow> u8 \<Rightarrow> panic + Backend option list" where
  "fill_distr distr k [] ggt = Inr distr"
| "fill_distr distr k (backend # rest) ggt =
     (case fill_backend distr k backend (unat (Weigth backend div ggt)) of
        Inl p \<Rightarrow> Inl p
      | Inr (distr', k') \<Rightarrow> fill_distr distr' k' rest ggt)"

text \<open>\<open>sum\<close> is a \<open>uint8\<close>: the additions wrap.\<close>

definition updateWeights :: "Route \<Rightarrow> panic + Route" where
  "updateWeights r =
     (case collect_active (Backends_r r) (replicate (length (Backends_r r)) 0) [] 0 of
        Inl p \<Rightarrow> Inl p
      | Inr (listWeights, activeBackends) \<Rightarrow>
          (let ggt = GGT listWeights in
           if ggt > 0 then
             (let sum = fold (\<lambda>weight sum. sum + weight div ggt) listWeights (0 :: u8) in
              case fill_distr (replicate (unat sum) None) 0 activeBackends ggt of
                Inl p \<Rightarrow> Inl p
              | Inr distr \<Rightarrow> Inr (r\<lparr>NextTargetDistr := distr, lenNextTargetDistr := length distr\<rparr>))
           else Inr (r\<lparr>NextTargetDistr := [], lenNextTargetDistr := 0\<rparr>)))"

datatype route_error = NoBackendIsActive

text \<open>\<open>rand.Intn(n)\<close> returns some index below \<open>n\<close>: the parameter \<open>pick\<close>.\<close>

definition getNextBackend :: "Route \<Rightarrow> nat \<Rightarrow> route_error + Backend option" where
  "getNextBackend r pick =
     (if lenNextTargetDistr r = 0 then Inl NoBackendIsActive
      else Inr (NextTargetDistr r ! (pick mod lenNextTargetDistr r)))"

text \<open>
  The quantities of the claim: the active backends in the order visited, the greatest
  common divisor of their weights and the sum of their weights, as natural numbers.
\<close>

definition active_backends :: "Route \<Rightarrow> Backend list" where
  "active_backends r = filter Active (Backends_r r)"

definition weight_gcd :: "Route \<Rightarrow> nat" where
  "weight_gcd r = fold gcd (map (\<lambda>b. unat (Weigth b)) (active_backends r)) 0"

definition weight_sum :: "Route \<Rightarrow> nat" where
  "weight_sum r = sum_list (map (\<lambda>b. unat (Weigth b)) (active_backends r))"

definition route_of :: "(u8 \<times> bool) list \<Rightarrow> Route" where
  "route_of wbs =
     \<lparr>Backends_r = map (\<lambda>(i, (w, a)). \<lparr>ID_b = of_nat i, Name = [], Weigth = w, Active = a\<rparr>)
         (zip [0..<length wbs] wbs),
      NextTargetDistr = [], lenNextTargetDistr = 0\<rparr>"

section \<open>Package route: the switchover\<close>

text \<open>
  \<open>Backend.UpdateWeight\<close> is defined in the route package's backend file, which is
  not among the sources. It is the parameter \<open>upd\<close> of \<open>Stop\<close>, of the cycle and of
  \<open>Start\<close> below: what holds of them holds for every function put there. Its argument
  is computed by the caller in \<open>uint8\<close>. The runs on concrete weights need an instance.
\<close>

text \<open>
  Modelled from the spec: \<open>Backend.UpdateWeight\<close> (backend file, not among the
  sources) as the setter of the weight, which is how the spec's
  \<open>from.weight -= weightChange\<close> reads and how the sources store the field themselves
  in \<open>UpdateBackendWeight\<close> and \<open>StartSwitchOver\<close>.
\<close>

definition UpdateWeight :: "Backend \<Rightarrow> u8 \<Rightarrow> Backend" where
  "UpdateWeight b weight = b\<lparr>Weigth := weight\<rparr>"

text \<open>
  Modelled from the spec: \<open>Backend.UpdateWeight\<close> in the other reading, which puts the
  spec's saturation at 0 and 100 into the setter: an 8-bit argument is never below 0,
  and one above 100 is stored as 100.
\<close>

definition UpdateWeight_saturating :: "Backend \<Rightarrow> u8 \<Rightarrow> Backend" where
  "UpdateWeight_saturating b weight = b\<lparr>Weigth := (if 100 < weight then 100 else weight)\<rparr>"

text \<open>
  The fields of \<open>Switchover\<close> that \<open>Start\<close> and \<open>Stop\<close> read or write. \<open>From\<close> and
  \<open>To\<close> are pointers to backends of the route. \<open>killChan\<close> is \<open>make(chan int, 1)\<close>: the
  number of buffered signals. \<open>FailureCounter\<close> is a Go \<open>int\<close>, far from its bounds.

  \<open>To.updateWeigth()\<close> is the route's \<open>updateWeights\<close> (\<open>AddBackend\<close> stores it in the
  backend). It reads the weights of the route's backends, writes the route's
  distribution vector and no field of the switchover. \<open>Stop\<close> and the cycle below
  leave the call out: they describe the calls in which it returns. Where it panics
  (the 8-bit sum of the reduced weights wraps, see \<open>updateWeights\<close>) the process ends
  there and the switchover reaches no later state.
\<close>

record Switchover =
  From :: Backend
  To :: Backend
  Status :: string
  Conditions :: "Condition list"
  WeightChange :: u8
  Rollback :: bool
  AllowedFailures :: int
  FailureCounter :: int
  toRollbackWeight :: u8
  fromRollbackWeight :: u8
  killChan :: nat

datatype switch_error = SameEntity | FromWeightSmaller

definition NewSwitchover ::
  "Backend \<Rightarrow> Backend \<Rightarrow> Condition list \<Rightarrow> int \<Rightarrow> u8 \<Rightarrow> bool \<Rightarrow> switch_error + Switchover" where
  "NewSwitchover from to conditions allowedFailures weightChange rollback =
     (if ID_b from = ID_b to then Inl SameEntity
      else if Weigth from < Weigth to then Inl FromWeightSmaller
      else Inr \<lparr>From = from, To = to, Status = ''Registered'', Conditions = conditions,
                WeightChange = weightChange, Rollback = rollback,
                AllowedFailures = allowedFailures, FailureCounter = 0,
                toRollbackWeight = 0, fromRollbackWeight = 0, killChan = 0\<rparr>)"

text \<open>
  \<open>Stop\<close>: the assignments, then the send on \<open>killChan\<close>, which blocks when the
  channel is full.
\<close>

datatype stop_result = Sent Switchover | BlockedOnSend Switchover

definition Stop :: "(Backend \<Rightarrow> u8 \<Rightarrow> Backend) \<Rightarrow> Switchover \<Rightarrow> stop_result" where
  "Stop upd s =
     (let s1 = (if Status s = ''Running'' then s\<lparr>Status := ''Stopped''\<rparr> else s);
          s2 = (if Rollback s1 \<and> Status s1 = ''Failed''
                then s1\<lparr>From := upd (From s1) (fromRollbackWeight s1),
                        To := upd (To s1) (toRollbackWeight s1)\<rparr>
                else s1)
      in case chan_send 1 (killChan s2) of
           None \<Rightarrow> BlockedOnSend s2
         | Some n \<Rightarrow> Sent (s2\<lparr>killChan := n\<rparr>))"

text \<open>The first loop of a cycle, for one condition. \<open>IsTrue\<close> is a parameter.\<close>

definition evaluate_condition ::
  "(Condition \<Rightarrow> metric_map \<Rightarrow> bool) \<Rightarrow> metric_map \<Rightarrow> bool \<Rightarrow> time \<Rightarrow> Condition \<Rightarrow> Condition" where
  "evaluate_condition IsTrue metrics toActive now condition =
     (if IsTrue condition metrics \<and> toActive then
        (if IsZero (TriggerTime condition) then condition\<lparr>TriggerTime := now\<rparr>
         else if Before (TriggerTime condition + GetActiveFor condition) now
              then condition\<lparr>Status_c := True\<rparr>
              else condition)
      else condition\<lparr>TriggerTime := 0, Status_c := False\<rparr>)"

text \<open>The test of the second loop: some condition is not latched and has no trigger time.\<close>

definition missed :: "Condition list \<Rightarrow> bool" where
  "missed conditions = list_ex (\<lambda>c. \<not> Status_c c \<and> IsZero (TriggerTime c)) conditions"

text \<open>The two weights the cycle hands to \<open>UpdateWeight\<close>, computed in \<open>uint8\<close>.\<close>

definition next_weights :: "u8 \<Rightarrow> u8 \<Rightarrow> u8 \<Rightarrow> u8 \<times> u8" where
  "next_weights fromWeight toWeight weightChange =
     (fromWeight - weightChange, toWeight + weightChange)"

text \<open>
  One cycle of \<open>Start\<close> after the timer fired at \<open>now\<close>: \<open>rates\<close> is what
  \<open>ReadRatesOfBackend\<close> returned and \<open>toActive\<close> the active flag of the target backend,
  which the health check sets. The result tells whether the loop goes on to its next
  \<open>select\<close> or is stuck in a send.
\<close>

datatype cycle_result = NextSelect Switchover | Stuck Switchover

definition after_Stop :: "(Backend \<Rightarrow> u8 \<Rightarrow> Backend) \<Rightarrow> Switchover \<Rightarrow> cycle_result" where
  "after_Stop upd s = (case Stop upd s of Sent s' \<Rightarrow> NextSelect s' | BlockedOnSend s' \<Rightarrow> Stuck s')"

definition cycle ::
  "(Backend \<Rightarrow> u8 \<Rightarrow> Backend) \<Rightarrow> (Condition \<Rightarrow> metric_map \<Rightarrow> bool) \<Rightarrow> Switchover \<Rightarrow> time \<Rightarrow> error + metric_map \<Rightarrow> bool \<Rightarrow> cycle_result" where
  "cycle upd IsTrue s now rates toActive =
     (case rates of
        Inl err \<Rightarrow> NextSelect s
      | Inr metrics \<Rightarrow>
          (let s0 = s\<lparr>To := (To s)\<lparr>Active := toActive\<rparr>\<rparr>;
               s1 = s0\<lparr>Conditions :=
                      map (evaluate_condition IsTrue metrics (Active (To s0)) now) (Conditions s0)\<rparr>
           in if missed (Conditions s1) then
                (let s2 = s1\<lparr>FailureCounter := FailureCounter s1 + 1\<rparr> in
                 if AllowedFailures s2 > 0 \<and> FailureCounter s2 > AllowedFailures s2
                 then after_Stop upd (s2\<lparr>Status := ''Failed''\<rparr>)
                 else NextSelect s2)
              else
                (let w = next_weights (Weigth (From s1)) (Weigth (To s1)) (WeightChange s1);
                     s2 = s1\<lparr>From := upd (From s1) (fst w)\<rparr>;
                     s3 = s2\<lparr>To := upd (To s2) (snd w)\<rparr>;
                     s4 = s3\<lparr>Conditions :=
                            map (\<lambda>c. c\<lparr>TriggerTime := 0, Status_c := False\<rparr>) (Conditions s3)\<rparr>
                 in if Weigth (From s4) \<le> 0 \<or> Weigth (To s4) \<ge> 100
                    then after_Stop upd (s4\<lparr>Status := ''Success''\<rparr>)
                    else NextSelect s4)))"

text \<open>
  The loop of \<open>Start\<close>. At a \<open>select\<close> with a buffered kill signal the kill branch is
  taken (the timer of that \<open>select\<close> has only just been set); otherwise the loop waits
  for the first of: a call of \<open>Stop\<close> from outside, and the timer. In \<open>loop\<close> a call
  of \<open>Stop\<close> from outside runs while the loop waits at a \<open>select\<close>; the calls that run
  before the loop is entered are those of \<open>Start_entry\<close> below.
\<close>

datatype event = StopCalled | TimerFires time "error + metric_map" bool

datatype outcome = Returned Switchover | Waiting Switchover | Deadlocked Switchover

fun loop ::
  "(Backend \<Rightarrow> u8 \<Rightarrow> Backend) \<Rightarrow> (Condition \<Rightarrow> metric_map \<Rightarrow> bool) \<Rightarrow> Switchover \<Rightarrow> event list \<Rightarrow> outcome" where
  "loop upd IsTrue s [] =
     (if killChan s > 0 then Returned (s\<lparr>killChan := killChan s - 1\<rparr>) else Waiting s)"
| "loop upd IsTrue s (ev # evs) =
     (if killChan s > 0 then Returned (s\<lparr>killChan := killChan s - 1\<rparr>)
      else
        (case ev of
           StopCalled \<Rightarrow>
             (case Stop upd s of Sent s' \<Rightarrow> loop upd IsTrue s' evs | BlockedOnSend s' \<Rightarrow> Deadlocked s')
         | TimerFires now rates toActive \<Rightarrow>
             (case cycle upd IsTrue s now rates toActive of
                NextSelect s' \<Rightarrow> loop upd IsTrue s' evs
              | Stuck s' \<Rightarrow> Deadlocked s')))"

definition Start ::
  "(Backend \<Rightarrow> u8 \<Rightarrow> Backend) \<Rightarrow> (Condition \<Rightarrow> metric_map \<Rightarrow> bool) \<Rightarrow> Switchover \<Rightarrow> event list \<Rightarrow> outcome" where
  "Start upd IsTrue s evs =
     loop upd IsTrue (s\<lparr>toRollbackWeight := Weigth (To s), fromRollbackWeight := Weigth (From s),
                    Status := ''Running''\<rparr>) evs"

text \<open>
  \<open>Start\<close> above is the run in which nothing else touches the switchover until the
  loop waits at its first \<open>select\<close>. In general a call of \<open>Stop\<close> from outside may
  run earlier: before \<open>Start\<close>, or between its first three statements. \<open>k0\<close>,
  \<open>k1\<close> and \<open>k2\<close> count the calls of \<open>Stop\<close> from outside that run before the first,
  the second and the third statement of \<open>Start\<close>, the third being the assignment of
  \<open>Running\<close>; a call of \<open>Stop\<close> from outside that finds the channel full has done its
  assignments and waits in the send while \<open>Start\<close> goes on.
\<close>

definition Stop_outside :: "(Backend \<Rightarrow> u8 \<Rightarrow> Backend) \<Rightarrow> Switchover \<Rightarrow> Switchover" where
  "Stop_outside upd s = (case Stop upd s of Sent s' \<Rightarrow> s' | BlockedOnSend s' \<Rightarrow> s')"

definition Start_entry ::
  "(Backend \<Rightarrow> u8 \<Rightarrow> Backend) \<Rightarrow> Switchover \<Rightarrow> nat \<Rightarrow> nat \<Rightarrow> nat \<Rightarrow> Switchover" where
  "Start_entry upd s k0 k1 k2 =
     (let s0 = (Stop_outside upd ^^ k0) s;
          s1 = s0\<lparr>toRollbackWeight := Weigth (To s0)\<rparr>;
          s2 = (Stop_outside upd ^^ k1) s1;
          s3 = s2\<lparr>fromRollbackWeight := Weigth (From s2)\<rparr>;
          s4 = (Stop_outside upd ^^ k2) s3
      in s4\<lparr>Status := ''Running''\<rparr>)"

definition Start_concurrent ::
  "(Backend \<Rightarrow> u8 \<Rightarrow> Backend) \<Rightarrow> (Condition \<Rightarrow> metric_map \<Rightarrow> bool) \<Rightarrow> Switchover
     \<Rightarrow> nat \<Rightarrow> nat \<Rightarrow> nat \<Rightarrow> event list \<Rightarrow> outcome" where
  "Start_concurrent upd IsTrue s k0 k1 k2 evs = loop upd IsTrue (Start_entry upd s k0 k1 k2) evs"



text \<open>The states in which the loop may return, and the invariant of the loop.\<close>

definition terminal_state :: "Switchover \<Rightarrow> bool" where
  "terminal_state s =
     (Status s = ''Stopped''
      \<or> (Status s = ''Failed'' \<and> AllowedFailures s < FailureCounter s)
      \<or> (Status s = ''Success'' \<and> (Weigth (From s) = 0 \<or> 100 \<le> Weigth (To s))))"

definition loop_inv :: "Switchover \<Rightarrow> bool" where
  "loop_inv s = (if killChan s = 0 then Status s = ''Running'' else terminal_state s)"







text \<open>Two backends, a condition, and switchovers between them.\<close>

definition backendA :: "u8 \<Rightarrow> Backend" where
  "backendA w = \<lparr>ID_b = 1, Name = ''A'', Weigth = w, Active = True\<rparr>"

definition backendB :: "u8 \<Rightarrow> Backend" where
  "backendB w = \<lparr>ID_b = 2, Name = ''B'', Weigth = w, Active = True\<rparr>"

definition rate_above :: "Condition \<Rightarrow> metric_map \<Rightarrow> bool" where
  "rate_above c metrics = (case metrics (Metric_c c) of None \<Rightarrow> False | Some v \<Rightarrow> Threshold c < v)"

definition condition2xx :: Condition where
  "condition2xx = \<lparr>Metric_c = ''2xxRate'', Operator = ''>'', Threshold = 95 / 100, ActiveFor = 5,
     TriggerTime = 0, Status_c = False\<rparr>"

definition switchover0 :: "u8 \<Rightarrow> u8 \<Rightarrow> u8 \<Rightarrow> int \<Rightarrow> Condition list \<Rightarrow> Switchover" where
  "switchover0 fromWeight toWeight weightChange allowedFailures conditions =
     \<lparr>From = backendA fromWeight, To = backendB toWeight, Status = ''Registered'',
      Conditions = conditions, WeightChange = weightChange, Rollback = True,
      AllowedFailures = allowedFailures, FailureCounter = 0,
      toRollbackWeight = 0, fromRollbackWeight = 0, killChan = 0\<rparr>"

definition healthy :: "time \<Rightarrow> event" where
  "healthy now = TimerFires now (Inr [''2xxRate'' \<mapsto> 1]) True"

definition failing :: "time \<Rightarrow> event" where
  "failing now = TimerFires now (Inr [''2xxRate'' \<mapsto> 1 / 2]) True"

text \<open>A running switchover at weights 10 and 90 whose one condition is latched.\<close>

definition latched0 :: Switchover where
  "latched0 = (switchover0 10 90 30 3 [condition2xx\<lparr>TriggerTime := 5, Status_c := True\<rparr>])
     \<lparr>Status := ''Running''\<rparr>"

subsection \<open>The earlier copy of the controller\<close>

text \<open>
  The file \<open>depoy/route/switchover.go\<close> holds an earlier copy of the controller (type
  \<open>SwitchOver\<close>, with the fields of \<open>Switchover\<close>; its counter is \<open>failureCounter\<close>).
  Its \<open>Stop\<close> rolls the weights back whenever \<open>Rollback\<close> is set. Its \<open>IsTrue\<close> returns
  a truth value and an error, and the cycle panics on the error. In the first loop of
  a cycle every condition that does not hold, or whose target is inactive, has its
  trigger time reset (its latch is left as it is) and adds one to the counter, and
  where the counter then equals \<open>AllowedFailures\<close> the status is set to \<open>Failed\<close> and
  \<open>Stop\<close> is called; the loop then goes on with the next condition. The weights are
  updated when every condition is latched, and \<open>Stop\<close> is called when the weight of
  \<open>From\<close> is 0. The loop polls the kill channel before each cycle. The clock readings
  of one cycle are taken as one.
\<close>

definition legacy_Stop :: "(Backend \<Rightarrow> u8 \<Rightarrow> Backend) \<Rightarrow> Switchover \<Rightarrow> stop_result" where
  "legacy_Stop upd s =
     (let s1 = (if Status s = ''Running'' then s\<lparr>Status := ''Stopped''\<rparr> else s);
          s2 = (if Rollback s1
                then s1\<lparr>From := upd (From s1) (fromRollbackWeight s1),
                        To := upd (To s1) (toRollbackWeight s1)\<rparr>
                else s1)
      in case chan_send 1 (killChan s2) of
           None \<Rightarrow> BlockedOnSend s2
         | Some n \<Rightarrow> Sent (s2\<lparr>killChan := n\<rparr>))"

text \<open>
  The first loop of a cycle of the earlier copy, over the conditions still to be
  visited; \<open>seen\<close> holds the conditions already visited, as the loop left them. The
  result tells whether the loop went through, is stuck in the send of its own \<open>Stop\<close>,
  or panicked.
\<close>

datatype legacy_result = Goes Switchover | StuckInStop Switchover | Panics error

fun legacy_conditions ::
  "(Backend \<Rightarrow> u8 \<Rightarrow> Backend) \<Rightarrow> (Condition \<Rightarrow> metric_map \<Rightarrow> error + bool) \<Rightarrow> metric_map \<Rightarrow> time
     \<Rightarrow> Switchover \<Rightarrow> Condition list \<Rightarrow> Condition list \<Rightarrow> legacy_result" where
  "legacy_conditions upd IsTrue metrics now s seen [] = Goes (s\<lparr>Conditions := seen\<rparr>)"
| "legacy_conditions upd IsTrue metrics now s seen (condition # rest) =
     (case IsTrue condition metrics of
        Inl err \<Rightarrow> Panics err
      | Inr status \<Rightarrow>
          if status \<and> Active (To s) then
            legacy_conditions upd IsTrue metrics now s
              (seen @ [if IsZero (TriggerTime condition) then condition\<lparr>TriggerTime := now\<rparr>
                       else if Before (TriggerTime condition + GetActiveFor condition) now
                            then condition\<lparr>Status_c := True\<rparr>
                            else condition])
              rest
          else
            (let s1 = s\<lparr>FailureCounter := FailureCounter s + 1\<rparr>;
                 seen1 = seen @ [condition\<lparr>TriggerTime := 0\<rparr>]
             in if FailureCounter s1 = AllowedFailures s1 then
                  (case legacy_Stop upd (s1\<lparr>Status := ''Failed''\<rparr>) of
                     Sent s2 \<Rightarrow> legacy_conditions upd IsTrue metrics now s2 seen1 rest
                   | BlockedOnSend s2 \<Rightarrow> StuckInStop (s2\<lparr>Conditions := seen1 @ rest\<rparr>))
                else legacy_conditions upd IsTrue metrics now s1 seen1 rest))"

text \<open>One cycle of the earlier copy, after the sleep.\<close>

definition legacy_cycle ::
  "(Backend \<Rightarrow> u8 \<Rightarrow> Backend) \<Rightarrow> (Condition \<Rightarrow> metric_map \<Rightarrow> error + bool) \<Rightarrow> Switchover \<Rightarrow> time
     \<Rightarrow> error + metric_map \<Rightarrow> bool \<Rightarrow> legacy_result" where
  "legacy_cycle upd IsTrue s now rates toActive =
     (case rates of
        Inl err \<Rightarrow> Goes s
      | Inr metrics \<Rightarrow>
          (case legacy_conditions upd IsTrue metrics now (s\<lparr>To := (To s)\<lparr>Active := toActive\<rparr>\<rparr>) []
                  (Conditions s) of
             Goes s1 \<Rightarrow>
               if list_ex (\<lambda>c. \<not> Status_c c) (Conditions s1) then Goes s1
               else
                 (let w = next_weights (Weigth (From s1)) (Weigth (To s1)) (WeightChange s1);
                      s2 = s1\<lparr>From := upd (From s1) (fst w)\<rparr>;
                      s3 = s2\<lparr>To := upd (To s2) (snd w)\<rparr>;
                      s4 = s3\<lparr>Conditions :=
                             map (\<lambda>c. c\<lparr>TriggerTime := 0, Status_c := False\<rparr>) (Conditions s3)\<rparr>
                  in if Weigth (From s4) = 0
                     then (case legacy_Stop upd s4 of
                             Sent s' \<Rightarrow> Goes s'
                           | BlockedOnSend s' \<Rightarrow> StuckInStop s')
                     else Goes s4)
           | StuckInStop s1 \<Rightarrow> StuckInStop s1
           | Panics err \<Rightarrow> Panics err))"

datatype legacy_outcome =
    LegacyReturned Switchover
  | LegacyWaiting Switchover
  | LegacyDeadlocked Switchover
  | LegacyPanicked error

text \<open>
  The loop of the earlier \<open>Start\<close>. Its \<open>select\<close> has a \<open>default\<close> branch: at the head
  of an iteration a buffered kill signal makes it return, and otherwise it sleeps,
  reads the rates and runs the cycle. A call of \<open>Stop\<close> from outside runs while the
  loop sleeps (\<open>sleeping\<close>), so the cycle after the sleep still runs before the loop
  sees the signal; a call that finds the channel full has done its assignments and
  waits in the send.
\<close>

definition legacy_Stop_outside :: "(Backend \<Rightarrow> u8 \<Rightarrow> Backend) \<Rightarrow> Switchover \<Rightarrow> Switchover" where
  "legacy_Stop_outside upd s =
     (case legacy_Stop upd s of Sent s' \<Rightarrow> s' | BlockedOnSend s' \<Rightarrow> s')"

fun legacy_loop ::
  "(Backend \<Rightarrow> u8 \<Rightarrow> Backend) \<Rightarrow> (Condition \<Rightarrow> metric_map \<Rightarrow> error + bool) \<Rightarrow> bool
     \<Rightarrow> Switchover \<Rightarrow> event list \<Rightarrow> legacy_outcome" where
  "legacy_loop upd IsTrue sleeping s [] =
     (if \<not> sleeping \<and> killChan s > 0 then LegacyReturned (s\<lparr>killChan := killChan s - 1\<rparr>)
      else LegacyWaiting s)"
| "legacy_loop upd IsTrue sleeping s (ev # evs) =
     (if \<not> sleeping \<and> killChan s > 0 then LegacyReturned (s\<lparr>killChan := killChan s - 1\<rparr>)
      else
        (case ev of
           StopCalled \<Rightarrow> legacy_loop upd IsTrue True (legacy_Stop_outside upd s) evs
         | TimerFires now rates toActive \<Rightarrow>
             (case legacy_cycle upd IsTrue s now rates toActive of
                Goes s' \<Rightarrow> legacy_loop upd IsTrue False s' evs
              | StuckInStop s' \<Rightarrow> LegacyDeadlocked s'
              | Panics err \<Rightarrow> LegacyPanicked err)))"

definition legacy_Start ::
  "(Backend \<Rightarrow> u8 \<Rightarrow> Backend) \<Rightarrow> (Condition \<Rightarrow> metric_map \<Rightarrow> error + bool) \<Rightarrow> Switchover
     \<Rightarrow> event list \<Rightarrow> legacy_outcome" where
  "legacy_Start upd IsTrue s evs =
     legacy_loop upd IsTrue False
       (s\<lparr>toRollbackWeight := Weigth (To s), fromRollbackWeight := Weigth (From s),
          Status := ''Running''\<rparr>) evs"



text \<open>The invariant of the earlier loop, and what holds of a result or an outcome that has a state.\<close>

definition legacy_inv :: "int \<Rightarrow> Switchover \<Rightarrow> bool" where
  "legacy_inv a s =
     (AllowedFailures s = a \<and> 0 \<le> FailureCounter s
      \<and> (Status s = ''Failed'' \<longleftrightarrow> 0 < a \<and> a \<le> FailureCounter s))"

definition legacy_holds :: "(Switchover \<Rightarrow> bool) \<Rightarrow> legacy_result \<Rightarrow> bool" where
  "legacy_holds P res = (case res of Goes s \<Rightarrow> P s | StuckInStop s \<Rightarrow> P s | Panics err \<Rightarrow> True)"

definition legacy_final :: "(Switchover \<Rightarrow> bool) \<Rightarrow> legacy_outcome \<Rightarrow> bool" where
  "legacy_final P out =
     (case out of LegacyReturned s \<Rightarrow> P s | LegacyWaiting s \<Rightarrow> P s | LegacyDeadlocked s \<Rightarrow> P s
      | LegacyPanicked err \<Rightarrow> True)"

chapter \<open>Theorems\<close>

section \<open>Package metrics\<close>

text \<open>
  C8 (as amended). For every repository state, \<open>RemoveBackend\<close> with an ID that the
  backend map does not hold returns an error and the state it was given. With an ID
  the map holds and the stop channel of that backend empty, it buffers the signal in
  that channel, deletes the entry and returns no error. With an ID the map holds and
  a signal already buffered in the stop channel, it does not return and deletes
  nothing: it waits in the send, and completes as before only once a monitor loop
  has taken the buffered signal.
\<close>

theorem RemoveBackend_unknown_or_known:
  "(Backends m backendID = None \<longrightarrow>
      RemoveBackend m backendID = Some (m, Some (InstanceNotFound backendID)))
   \<and> (\<forall>p. Backends m backendID = Some p \<and> stopMonitoring (heap m p) = 0 \<longrightarrow>
        removed m backendID p (RemoveBackend m backendID))
   \<and> (\<forall>p. Backends m backendID = Some p \<and> stopMonitoring (heap m p) = 1 \<longrightarrow>
        RemoveBackend m backendID = None
        \<and> removed m backendID p (RemoveBackend (monitor_receives m p) backendID))"
  by (simp add: RemoveBackend_def chan_send_def removed_def monitor_receives_def)

theorem RemoveBackend_unknown_or_known_witness:
  "Backends repo0 9 = None
   \<and> RemoveBackend repo0 9 = Some (repo0, Some (InstanceNotFound 9))
   \<and> Backends repo0 7 = Some 0 \<and> stopMonitoring (heap repo0 0) = 0
   \<and> removed repo0 7 0 (RemoveBackend repo0 7)
   \<and> Backends repo1 7 = Some 0 \<and> stopMonitoring (heap repo1 0) = 1
   \<and> RemoveBackend repo1 7 = None
   \<and> removed repo1 7 0 (RemoveBackend (monitor_receives repo1 0) 7)"
proof -
  have h: "Backends repo0 9 = None" "Backends repo0 7 = Some 0" "stopMonitoring (heap repo0 0) = 0"
    "Backends repo1 7 = Some 0" "stopMonitoring (heap repo1 0) = 1"
    by (simp_all add: repo0_def repo1_def backend0_def)
  show ?thesis
    using RemoveBackend_unknown_or_known [of repo0 9] RemoveBackend_unknown_or_known [of repo0 7]
      RemoveBackend_unknown_or_known [of repo1 7] h
    by simp
qed

text \<open>
  The claim as stated fails for a registered ID: \<open>Repository.Stop\<close> buffers a signal
  in the stop channel of every backend and leaves the entries in the map; where no
  monitor loop takes that signal, \<open>RemoveBackend\<close> of the ID then waits in its send,
  returns nothing and deletes nothing.
\<close>

theorem RemoveBackend_full_channel_counterexample:
  "stop_backend repo0 0 = Some repo1
   \<and> Backends repo1 7 = Some 0
   \<and> stopMonitoring (heap repo1 0) = 1
   \<and> RemoveBackend repo1 7 = None"
  by (simp add: stop_backend_def RemoveBackend_def chan_send_def repo0_def repo1_def backend0_def)

text \<open>
  C10. A \<open>ScrapeMetrics\<close> record for an ID that the backend map does not hold makes
  \<open>Listen\<close> panic on a nil pointer; a request measurement for such an ID is handed
  to the Prometheus adapter and the loop goes on with the store's writes unchanged.
\<close>

theorem Listen_unregistered_backend:
  "(Backends m (BackendID_s scrapeMetrics) = None \<longrightarrow>
      Listen_step m (FromScrapeChannel scrapeMetrics) = Panic NilPointerDereference)
   \<and> (Backends m (BackendID_m metrics) = None \<longrightarrow>
      (\<exists>m'. Listen_step m (FromInChannel metrics) = Continue m'
         \<and> Storage m' = Storage m \<and> Backends m' = Backends m \<and> heap m' = heap m))"
  by (simp add: Listen_step_def Let_def)

theorem Listen_unregistered_backend_witness:
  "Backends repo0 (BackendID_s \<lparr>BackendID_s = 9, Metrics_s = Some Map.empty\<rparr>) = None
   \<and> Listen_step repo0 (FromScrapeChannel \<lparr>BackendID_s = 9, Metrics_s = Some Map.empty\<rparr>)
       = Panic NilPointerDereference
   \<and> Backends repo0 (BackendID_m request0) = None
   \<and> (\<exists>m'. Listen_step repo0 (FromInChannel request0) = Continue m' \<and> Storage m' = [])"
  using Listen_unregistered_backend
    [of repo0 "\<lparr>BackendID_s = 9, Metrics_s = Some Map.empty\<rparr>" request0]
  by (auto simp: repo0_def request0_def)


subsection \<open>ReadRatesOfBackend\<close>

text \<open>
  C1. For the window of three points with statuses 200, 201 and 503 the code divides
  the integer counters before converting, so \<open>2xxRate\<close> is \<open>float64(2 / 3) = 0\<close> and
  \<open>5xxRate\<close> is \<open>float64(1 / 3) = 0\<close>, not \<open>0.667\<close> and \<open>0.333\<close>.
\<close>

theorem ReadRatesOfBackend_window3:
  "\<exists>rates. ReadRatesOfBackend (\<lambda>backend start finish. Inr window3) 7 0 3 = Inr rates
     \<and> rates ''2xxRate'' = Some 0 \<and> rates ''5xxRate'' = Some 0
     \<and> rates ''2xxRate'' \<noteq> Some (2 / 3)"
  by (simp add: ReadRatesOfBackend_def window3_def quo_def Let_def)

text \<open>Every rate the code returns for a window without custom metrics is a whole number.\<close>

lemma ReadRatesOfBackend_whole:
  assumes "ReadBackend backend start finish = Inr w" and "CustomMetrics w = Map.empty"
  shows "\<exists>rates n. ReadRatesOfBackend ReadBackend backend start finish = Inr rates
     \<and> rates ''2xxRate'' = Some (of_int n)"
  using assms by (simp add: ReadRatesOfBackend_def Let_def)

subsection \<open>Scraping\<close>


lemma Split_nonempty: "Split l c \<noteq> []"
  by (induction l) (auto split: list.splits)

lemma Split_head: "\<exists>rest. Split l (CHR '' '') = first_token l # rest"
proof (induction l)
  case Nil
  show ?case by (simp add: first_token_def)
next
  case (Cons c cs)
  then obtain rest where r: "Split cs (CHR '' '') = first_token cs # rest" by blast
  show ?case
    by (cases "c = CHR '' ''") (simp_all add: r first_token_def)
qed

lemma getRowFromBody_absent:
  "\<forall>l \<in> set ls. first_token l = ''#'' \<or> first_token l \<noteq> name \<Longrightarrow>
   getRowFromBody pf ls name = Inr (- 1, Some (PatternNotFound name))"
proof (induction ls)
  case Nil
  show ?case by simp
next
  case (Cons l ls)
  obtain rest where r: "Split l (CHR '' '') = first_token l # rest"
    using Split_head by blast
  from Cons show ?case by (auto simp: r)
qed

lemma scrape_names_absent:
  "scrape_names pf ls names acc = Inr m \<Longrightarrow>
   getRowFromBody pf ls name = Inr (- 1, e) \<Longrightarrow>
   name \<in> set names \<or> acc name = Some (- 1) \<Longrightarrow> m name = Some (- 1)"
proof (induction names arbitrary: acc)
  case Nil
  then show ?case by simp
next
  case (Cons n ns)
  show ?case
  proof (cases "getRowFromBody pf ls n")
    case (Inl p)
    with Cons.prems(1) show ?thesis by simp
  next
    case (Inr ve)
    obtain v err where ve: "ve = (v, err)" by (cases ve)
    from Cons.prems(1) Inr ve
    have run: "scrape_names pf ls ns (acc(n \<mapsto> v)) = Inr m" by simp
    have "name \<in> set ns \<or> (acc(n \<mapsto> v)) name = Some (- 1)"
      using Cons.prems(2,3) Inr ve by auto
    with Cons.IH [OF run Cons.prems(2)] show ?thesis by blast
  qed
qed

text \<open>The scrape delivers when every line that starts with a requested name has a space.\<close>

lemma Split_length: "length (Split l sep) = Suc (length (filter (\<lambda>c. c = sep) l))"
  by (induction l) (auto split: list.splits)

lemma getRowFromBody_returns:
  "\<forall>l \<in> set ls. first_token l \<noteq> name \<or> CHR '' '' \<in> set l \<Longrightarrow>
   \<exists>v e. getRowFromBody pf ls name = Inr (v, e)"
proof (induction ls)
  case Nil
  show ?case by simp
next
  case (Cons l ls)
  obtain rest where r: "Split l (CHR '' '') = first_token l # rest"
    using Split_head by blast
  show ?case
  proof (cases "first_token l = name \<and> first_token l \<noteq> ''#''")
    case False
    with Cons show ?thesis by (auto simp: r)
  next
    case True
    with Cons.prems have "CHR '' '' \<in> set l" by simp
    then have "filter (\<lambda>c. c = CHR '' '') l \<noteq> []" by (simp add: filter_empty_conv)
    then have "2 \<le> length (Split l (CHR '' ''))" by (simp add: Split_length Suc_le_eq)
    then obtain s1 more where "rest = s1 # more" unfolding r by (cases rest) simp_all
    with True show ?thesis by (auto simp: r split: sum.splits)
  qed
qed

lemma scrape_names_returns:
  "\<forall>name \<in> set names. \<forall>l \<in> set ls. first_token l \<noteq> name \<or> CHR '' '' \<in> set l \<Longrightarrow>
   \<exists>m. scrape_names pf ls names acc = Inr m"
proof (induction names arbitrary: acc)
  case Nil
  show ?case by simp
next
  case (Cons n ns)
  then obtain v e where "getRowFromBody pf ls n = Inr (v, e)"
    using getRowFromBody_returns [of ls n pf] by auto
  with Cons show ?case by simp
qed

lemma scrapeJob_delivers:
  "\<forall>name \<in> set (ScrapeMetrics instance). \<forall>l \<in> set (ScanLines body).
      first_token l \<noteq> name \<or> CHR '' '' \<in> set l \<Longrightarrow>
   \<exists>delivered. scrapeJob pf instance body = Inr delivered"
  using scrape_names_returns [of "ScrapeMetrics instance" "ScanLines body" pf Map.empty]
  by (auto simp: scrapeJob_def)

text \<open>
  C7 (as amended). For every scrape body and every requested metric name that is not
  the first token of any non-comment line the scanner yields, the record that
  \<open>scrapeJob\<close> delivers holds the value \<open>-1\<close> under that name: the failed lookup is
  logged and its substitute value stored.
\<close>

theorem scrapeJob_unknown_name:
  assumes "scrapeJob pf instance body = Inr delivered"
    and "name \<in> set (ScrapeMetrics instance)"
    and "\<forall>l \<in> set (ScanLines body). first_token l = ''#'' \<or> first_token l \<noteq> name"
  shows "\<exists>metrics. Metrics_s delivered = Some metrics \<and> metrics name = Some (- 1)"
proof -
  from assms(1) obtain metrics where
    run: "scrape_names pf (ScanLines body) (ScrapeMetrics instance) Map.empty = Inr metrics"
    and d: "delivered = \<lparr>BackendID_s = ID instance, Metrics_s = Some metrics\<rparr>"
    by (auto simp: scrapeJob_def split: sum.splits)
  have "metrics name = Some (- 1)"
    using scrape_names_absent [OF run getRowFromBody_absent [OF assms(3)]] assms(2) by blast
  with d show ?thesis by simp
qed


theorem scrapeJob_unknown_name_witness:
  "scrapeJob parse_digit (scraped0\<lparr>ScrapeMetrics := [''jobs'', ''absent'', ''up'']\<rparr>) body1
     = Inr \<lparr>BackendID_s = 7, Metrics_s = Some [''jobs'' \<mapsto> 2, ''absent'' \<mapsto> - 1, ''up'' \<mapsto> 1]\<rparr>
   \<and> map first_token (ScanLines body1) = [''#'', ''jobs'', ''up'']
   \<and> (\<exists>metrics. Metrics_s \<lparr>BackendID_s = 7, Metrics_s = Some [''jobs'' \<mapsto> 2, ''absent'' \<mapsto> - 1, ''up'' \<mapsto> 1]\<rparr>
         = Some metrics \<and> metrics ''absent'' = Some (- 1))"
proof -
  have run: "scrapeJob parse_digit (scraped0\<lparr>ScrapeMetrics := [''jobs'', ''absent'', ''up'']\<rparr>) body1
     = Inr \<lparr>BackendID_s = 7, Metrics_s = Some [''jobs'' \<mapsto> 2, ''absent'' \<mapsto> - 1, ''up'' \<mapsto> 1]\<rparr>"
    by (simp add: scrapeJob_def ScanLines_def scraped0_def backend0_def body1_def dropCR_def
          MaxScanTokenSize_def parse_digit_def)
  have toks: "map first_token (ScanLines body1) = [''#'', ''jobs'', ''up'']"
    by (simp add: ScanLines_def body1_def dropCR_def MaxScanTokenSize_def first_token_def)
  have lines: "\<forall>l \<in> set (ScanLines body1). first_token l = ''#'' \<or> first_token l \<noteq> ''absent''"
  proof
    fix l assume "l \<in> set (ScanLines body1)"
    then have "first_token l \<in> set (map first_token (ScanLines body1))" by simp
    then show "first_token l = ''#'' \<or> first_token l \<noteq> ''absent''" unfolding toks by auto
  qed
  have req: "''absent'' \<in> set (ScrapeMetrics (scraped0\<lparr>ScrapeMetrics := [''jobs'', ''absent'', ''up'']\<rparr>))"
    by simp
  show ?thesis using scrapeJob_unknown_name [OF run req lines] run toks by simp
qed

text \<open>
  The claim as stated fails: the body \<open>up 1\<close> has no line for the requested name
  \<open>missing\<close>, and the delivered map holds a sample for it.
\<close>

theorem scrapeJob_unknown_name_counterexample:
  "map first_token (ScanLines body0) = [''up'']
   \<and> ScrapeMetrics scraped0 = [''up'', ''missing'']
   \<and> scrapeJob parse_digit scraped0 body0
       = Inr \<lparr>BackendID_s = 7, Metrics_s = Some [''up'' \<mapsto> 1, ''missing'' \<mapsto> - 1]\<rparr>
   \<and> [''up'' \<mapsto> 1, ''missing'' \<mapsto> - 1 :: real] ''missing'' \<noteq> None"
  by (simp add: scrapeJob_def ScanLines_def scraped0_def backend0_def body0_def dropCR_def
        MaxScanTokenSize_def parse_digit_def first_token_def)

subsection \<open>Monitor\<close>
























section \<open>Package router\<close>


lemma ToUpper_GET: "ToUpper ''GET'' = ''GET''" "ToUpper ''get'' = ''GET''" "ToUpper ''POST'' = ''POST''"
  by (simp_all add: ToUpper_def upper_char_def)

lemma ToUpper_empty: "ToUpper m = [] \<longleftrightarrow> m = []"
  by (simp add: ToUpper_def)

text \<open>
  C9. For every router, \<open>AddHandler\<close> with an empty method, with a prefix that is empty
  or does not start with a slash, or with a method and prefix that are already
  registered returns an error and the router unchanged. Where
  \<open>AddHandler(GET, /a/)\<close> has succeeded, a second one returns an error and leaves the
  router as it is; a GET request for \<open>/a/x\<close> goes to the registered handler (no handler
  being registered for \<open>/a/x\<close> itself), and a POST request for \<open>/a/x\<close> goes to the
  not-found handler (no POST handler being registered).
\<close>

theorem AddHandler_rejects_and_dispatches:
  "((method = [] \<or> prefix = [] \<or> hd prefix \<noteq> CHR ''/''
      \<or> (\<exists>t h. tree r (ToUpper method) = Some t \<and> radix_Get t prefix = Some h))
     \<longrightarrow> (\<exists>e. AddHandler r method prefix handler = Inr (r, Some e)))
   \<and> (AddHandler r ''GET'' ''/a/'' handler = Inr (r', None) \<longrightarrow>
        (\<exists>e. AddHandler r' ''GET'' ''/a/'' handler' = Inr (r', Some e))
      \<and> ((\<forall>t. tree r ''GET'' = Some t \<longrightarrow> radix_Get t ''/a/x'' = None)
           \<longrightarrow> ServeHTTP r' ''GET'' ''/a/x'' = ToHandler handler)
      \<and> (tree r ''POST'' = None \<longrightarrow> ServeHTTP r' ''POST'' ''/a/x'' = ToNotFoundHandler))"
proof (intro conjI impI)
  assume "method = [] \<or> prefix = [] \<or> hd prefix \<noteq> CHR ''/''
      \<or> (\<exists>t h. tree r (ToUpper method) = Some t \<and> radix_Get t prefix = Some h)"
  then show "\<exists>e. AddHandler r method prefix handler = Inr (r, Some e)"
    by (auto simp: AddHandler_def CheckIfHandleExists_def Let_def ToUpper_empty)
next
  assume ok: "AddHandler r ''GET'' ''/a/'' handler = Inr (r', None)"
  have r': "tree r' ''GET'' = Some ((case tree r ''GET'' of None \<Rightarrow> Map.empty | Some t \<Rightarrow> t)(''/a/'' \<mapsto> handler))"
    and other: "\<And>m. m \<noteq> ''GET'' \<Longrightarrow> tree r' m = tree r m"
    using ok
    by (auto simp: AddHandler_def CheckIfHandleExists_def Let_def ToUpper_GET radix_Insert_def
          radix_Get_def split: option.splits if_splits)
  show "\<exists>e. AddHandler r' ''GET'' ''/a/'' handler' = Inr (r', Some e)"
    using r' by (simp add: AddHandler_def CheckIfHandleExists_def Let_def ToUpper_GET radix_Get_def)
  show "ServeHTTP r' ''GET'' ''/a/x'' = ToHandler handler"
    if "\<forall>t. tree r ''GET'' = Some t \<longrightarrow> radix_Get t ''/a/x'' = None"
    using that r'
    by (auto simp: ServeHTTP_def radix_LongestPrefix_def radix_Get_def numeral_eq_Suc
          split: option.splits)
  show "ServeHTTP r' ''POST'' ''/a/x'' = ToNotFoundHandler" if "tree r ''POST'' = None"
    using that other [of "''POST''"] by (simp add: ServeHTTP_def)
qed

theorem AddHandler_rejects_and_dispatches_witness:
  "(\<exists>e. AddHandler (NewRouter :: nat Router) [] ''/a/'' 1 = Inr (NewRouter, Some e))
   \<and> (\<exists>r'. AddHandler (NewRouter :: nat Router) ''GET'' ''/a/'' 1 = Inr (r', None)
        \<and> (\<exists>e. AddHandler r' ''GET'' ''/a/'' 2 = Inr (r', Some e))
        \<and> ServeHTTP r' ''GET'' ''/a/x'' = ToHandler 1
        \<and> ServeHTTP r' ''POST'' ''/a/x'' = ToNotFoundHandler)"
proof -
  define r' :: "nat Router" where "r' = \<lparr>tree = [''GET'' \<mapsto> [''/a/'' \<mapsto> 1]]\<rparr>"
  have ok: "AddHandler (NewRouter :: nat Router) ''GET'' ''/a/'' 1 = Inr (r', None)"
    by (simp add: AddHandler_def CheckIfHandleExists_def Let_def ToUpper_GET radix_Insert_def
          radix_Get_def NewRouter_def r'_def)
  have none: "tree (NewRouter :: nat Router) ''GET'' = None" "tree (NewRouter :: nat Router) ''POST'' = None"
    by (simp_all add: NewRouter_def)
  show ?thesis
    using AddHandler_rejects_and_dispatches [of "[]" "''/a/''" NewRouter 1 r' 2]
      ok none by simp
qed



section \<open>Package route: the distribution vector\<close>


lemma collect_active_eq:
  "i + length (filter Active bs) \<le> length lw \<Longrightarrow>
   collect_active bs lw act i =
     Inr (take i lw @ map Weigth (filter Active bs) @ drop (i + length (filter Active bs)) lw,
          act @ filter Active bs)"
proof (induction bs arbitrary: lw act i)
  case Nil
  then show ?case by simp
next
  case (Cons b bs)
  show ?case
  proof (cases "Active b")
    case False
    with Cons show ?thesis by simp
  next
    case True
    with Cons.prems have i: "i < length lw"
      and pre: "Suc i + length (filter Active bs) \<le> length (lw[i := Weigth b])" by simp_all
    have t: "take (Suc i) (lw[i := Weigth b]) = take i lw @ [Weigth b]"
      using i by (simp add: take_Suc_conv_app_nth)
    have d: "drop (Suc i + length (filter Active bs)) (lw[i := Weigth b])
               = drop (Suc i + length (filter Active bs)) lw"
      by simp
    show ?thesis
      using True i Cons.IH [OF pre, of "act @ [b]"] by (simp add: t d)
  qed
qed

lemma collect_active_start:
  "collect_active bs (replicate (length bs) 0) [] 0 =
     Inr (map Weigth (filter Active bs) @ replicate (length bs - length (filter Active bs)) 0,
          filter Active bs)"
  using collect_active_eq [of 0 bs "replicate (length bs) 0" "[]"] by simp

lemma fold_gcd_Gcd: "fold gcd xs (a :: nat) = gcd a (Gcd (set xs))"
  by (induction xs arbitrary: a) (simp_all add: ac_simps)

lemma Gcd_bound:
  assumes "\<forall>x \<in> set xs. x < (256 :: nat)"
  shows "Gcd (set xs) < 256"
proof (cases "Gcd (set xs) = 0")
  case True
  show ?thesis unfolding True by simp
next
  case False
  then obtain x where x: "x \<in> set xs" "x \<noteq> 0" by (auto simp: Gcd_0_iff)
  then have "Gcd (set xs) dvd x" by (simp add: Gcd_dvd)
  then have "Gcd (set xs) \<le> x" using x(2) by (simp add: dvd_imp_le)
  with assms x(1) show ?thesis by fastforce
qed

lemma unat_u8_less: "unat (w :: u8) < 256"
  using unsigned_less [of w, where 'a = nat] by simp

lemma fold_gcd_zeros: "fold gcd (replicate k (0 :: nat)) a = a"
  by (induction k) simp_all

lemma unat_GGT_pad:
  "unat (GGT (ws @ replicate k 0)) = fold gcd (map unat ws) 0"
proof -
  have "Gcd (set (map unat ws)) < 256"
    by (rule Gcd_bound) (auto simp: unat_u8_less)
  then have "fold gcd (map unat ws) 0 < 256" by (simp add: fold_gcd_Gcd)
  moreover have "fold gcd (map unat (ws @ replicate k (0 :: u8))) 0 = fold gcd (map unat ws) 0"
    by (simp add: fold_gcd_zeros del: fold_replicate)
  ultimately show ?thesis
    by (simp only: GGT_def unat_of_nat) simp
qed

lemma fold_sum_u8:
  "fold (\<lambda>weight sum. sum + weight div ggt) ws (s0 :: u8)
     = s0 + of_nat (sum_list (map (\<lambda>w. unat w div unat ggt) ws))"
proof (induction ws arbitrary: s0)
  case Nil
  show ?case by simp
next
  case (Cons w ws)
  have "w div ggt = of_nat (unat w div unat ggt)"
    by (simp add: word_arith_nat_div)
  then show ?case by (simp add: Cons.IH add.assoc)
qed

lemma dvd_sum_list_nat: "\<forall>x \<in> set xs. (g :: nat) dvd x \<Longrightarrow> g dvd sum_list xs"
  by (induction xs) simp_all

lemma sum_list_div:
  "\<forall>x \<in> set xs. (g :: nat) dvd x \<Longrightarrow> sum_list (map (\<lambda>x. x div g) xs) = sum_list xs div g"
proof (induction xs)
  case Nil
  show ?case by simp
next
  case (Cons x xs)
  then have "g dvd x" and "g dvd sum_list xs" by (simp_all add: dvd_sum_list_nat)
  then have "(x + sum_list xs) div g = x div g + sum_list xs div g" by (simp add: div_add)
  with Cons show ?case by simp
qed

lemma fill_backend_eq:
  "n \<le> m \<Longrightarrow>
   fill_backend (pre @ replicate m None) (length pre) b n
     = Inr (pre @ replicate n (Some b) @ replicate (m - n) None, length pre + n)"
proof (induction n arbitrary: pre m)
  case 0
  show ?case by simp
next
  case (Suc n)
  then obtain m' where m: "m = Suc m'" and le: "n \<le> m'" by (cases m) simp_all
  have u: "(pre @ replicate m None)[length pre := Some b] = (pre @ [Some b]) @ replicate m' None"
    by (simp add: m list_update_append)
  show ?case
    using Suc.IH [OF le, of "pre @ [Some b]"] unfolding fill_backend.simps u
    by (simp add: m replicate_append_same)
qed

lemma fill_distr_eq:
  "sum_list (map (\<lambda>b. unat (Weigth b div ggt)) bs) \<le> m \<Longrightarrow>
   fill_distr (pre @ replicate m None) (length pre) bs ggt
     = Inr (pre @ concat (map (\<lambda>b. replicate (unat (Weigth b div ggt)) (Some b)) bs)
            @ replicate (m - sum_list (map (\<lambda>b. unat (Weigth b div ggt)) bs)) None)"
proof (induction bs arbitrary: pre m)
  case Nil
  show ?case by simp
next
  case (Cons b bs)
  let ?n = "unat (Weigth b div ggt)"
  let ?rest = "sum_list (map (\<lambda>b. unat (Weigth b div ggt)) bs)"
  from Cons.prems have n: "?n \<le> m" and r: "?rest \<le> m - ?n" by simp_all
  have step: "fill_backend (pre @ replicate m None) (length pre) b ?n
     = Inr ((pre @ replicate ?n (Some b)) @ replicate (m - ?n) None, length (pre @ replicate ?n (Some b)))"
    using fill_backend_eq [OF n] by simp
  show ?case
    unfolding fill_distr.simps step using Cons.IH [OF r, of "pre @ replicate ?n (Some b)"]
    by simp
qed


lemma weight_gcd_Gcd: "weight_gcd r = Gcd (set (map (\<lambda>b. unat (Weigth b)) (active_backends r)))"
  by (simp add: weight_gcd_def fold_gcd_Gcd)

lemma weight_gcd_dvd: "b \<in> set (active_backends r) \<Longrightarrow> weight_gcd r dvd unat (Weigth b)"
  unfolding weight_gcd_Gcd by (rule Gcd_dvd) simp

lemma weight_gcd_zero_iff:
  "weight_gcd r = 0 \<longleftrightarrow> (\<forall>b \<in> set (Backends_r r). Active b \<longrightarrow> Weigth b = 0)"
  unfolding weight_gcd_Gcd by (auto simp: Gcd_0_iff active_backends_def unat_eq_0)

lemma reduced_sum: "sum_list (map (\<lambda>b. unat (Weigth b) div weight_gcd r) (active_backends r))
    = weight_sum r div weight_gcd r"
proof -
  have "sum_list (map (\<lambda>x. x div weight_gcd r) (map (\<lambda>b. unat (Weigth b)) (active_backends r)))
      = sum_list (map (\<lambda>b. unat (Weigth b)) (active_backends r)) div weight_gcd r"
    by (rule sum_list_div) (auto simp: weight_gcd_dvd)
  then show ?thesis by (simp add: weight_sum_def comp_def)
qed

lemma concat_replicate_Nil_iff:
  "concat (map (\<lambda>b. replicate (f b) (g b)) bs) = [] \<longleftrightarrow> (\<forall>b \<in> set bs. f b = 0)"
  by (induction bs) auto

text \<open>
  C6 (as amended). For every set of backends, where the reduced weights of the active
  backends sum to at most 255, the recomputation succeeds; the distribution vector is
  empty if and only if every active backend has weight 0 (in particular when none is
  active); its length is the sum of the active backends' weights divided by their
  greatest common divisor, and each active backend appears weight over divisor times
  in a row, in the order in which the map was visited.
\<close>

theorem updateWeights_distribution:
  assumes "weight_sum r div weight_gcd r \<le> 255"
  shows "\<exists>r'. updateWeights r = Inr r'
     \<and> NextTargetDistr r' =
         concat (map (\<lambda>b. replicate (unat (Weigth b) div weight_gcd r) (Some b)) (active_backends r))
     \<and> lenNextTargetDistr r' = length (NextTargetDistr r')
     \<and> length (NextTargetDistr r') = weight_sum r div weight_gcd r
     \<and> (NextTargetDistr r' = [] \<longleftrightarrow> (\<forall>b \<in> set (Backends_r r). Active b \<longrightarrow> Weigth b = 0))
     \<and> Backends_r r' = Backends_r r"
proof -
  let ?act = "active_backends r"
  let ?g = "weight_gcd r"
  let ?pad = "replicate (length (Backends_r r) - length ?act) (0 :: u8)"
  let ?lw = "map Weigth ?act @ ?pad"
  let ?distr = "concat (map (\<lambda>b. replicate (unat (Weigth b) div ?g) (Some b)) ?act)"
  have coll: "collect_active (Backends_r r) (replicate (length (Backends_r r)) 0) [] 0 = Inr (?lw, ?act)"
    by (simp add: collect_active_start active_backends_def)
  have ggt: "unat (GGT ?lw) = ?g"
    by (simp add: unat_GGT_pad weight_gcd_def comp_def)
  have len: "length ?distr = weight_sum r div ?g"
    by (simp add: length_concat comp_def reduced_sum)
  show ?thesis
  proof (cases "?g = 0")
    case True
    then have z: "GGT ?lw = 0" using ggt by (simp add: unat_eq_0)
    have "updateWeights r = Inr (r\<lparr>NextTargetDistr := [], lenNextTargetDistr := 0\<rparr>)"
      by (simp add: updateWeights_def coll z)
    moreover have "?distr = []" using True by (simp add: concat_replicate_Nil_iff)
    ultimately show ?thesis using True weight_gcd_zero_iff [of r] by simp
  next
    case False
    then have pos: "0 < GGT ?lw" using ggt by (metis unat_gt_0 word_gt_0 neq0_conv)
    have cnt: "\<And>b. unat (Weigth b div GGT ?lw) = unat (Weigth b) div ?g"
      by (simp add: unat_div ggt)
    have total: "sum_list (map (\<lambda>w. unat w div unat (GGT ?lw)) ?lw) = weight_sum r div ?g"
      by (simp add: ggt comp_def reduced_sum)
    have usum: "unat (fold (\<lambda>weight sum. sum + weight div GGT ?lw) ?lw (0 :: u8)) = weight_sum r div ?g"
      unfolding fold_sum_u8 total using assms by (simp add: unat_of_nat)
    have cnts: "sum_list (map (\<lambda>b. unat (Weigth b div GGT ?lw)) ?act) = weight_sum r div ?g"
      by (simp add: cnt reduced_sum)
    have "fill_distr ([] @ replicate (weight_sum r div ?g) None) (length ([] :: Backend option list))
            ?act (GGT ?lw) = Inr ?distr"
      by (subst fill_distr_eq) (simp_all add: cnt reduced_sum)
    then have fill: "fill_distr (replicate (weight_sum r div ?g) None) 0 ?act (GGT ?lw) = Inr ?distr"
      by simp
    have upd: "updateWeights r = Inr (r\<lparr>NextTargetDistr := ?distr, lenNextTargetDistr := length ?distr\<rparr>)"
      unfolding updateWeights_def coll
      by (simp only: sum.case prod.case Let_def pos if_True usum fill)
    have nonempty: "?distr \<noteq> []"
    proof -
      from False obtain b where b: "b \<in> set ?act" "unat (Weigth b) \<noteq> 0"
        unfolding weight_gcd_Gcd by (auto simp: Gcd_0_iff)
      then have "?g \<le> unat (Weigth b)" using weight_gcd_dvd [OF b(1)] by (simp add: dvd_imp_le)
      then have "unat (Weigth b) div ?g \<noteq> 0" using False by (simp add: div_eq_0_iff)
      with b(1) show ?thesis by (auto simp: concat_replicate_Nil_iff)
    qed
    have neg: "\<not> (\<forall>b \<in> set (Backends_r r). Active b \<longrightarrow> Weigth b = 0)"
      using False weight_gcd_zero_iff [of r] by simp
    have iff: "(?distr = []) = (\<forall>b \<in> set (Backends_r r). Active b \<longrightarrow> Weigth b = 0)"
      using nonempty neg by (simp only: simp_thms)
    show ?thesis using upd len iff by simp
  qed
qed




theorem updateWeights_distribution_witness:
  "weight_sum (route_of [(80, True), (20, True), (50, False)])
      div weight_gcd (route_of [(80, True), (20, True), (50, False)]) \<le> 255
   \<and> (\<exists>r'. updateWeights (route_of [(80, True), (20, True), (50, False)]) = Inr r'
        \<and> map (map_option ID_b) (NextTargetDistr r') = [Some 0, Some 0, Some 0, Some 0, Some 1]
        \<and> lenNextTargetDistr r' = 5)"
proof -
  let ?r = "route_of [(80, True), (20, True), (50, False)]"
  have a: "active_backends ?r =
     [\<lparr>ID_b = 0, Name = [], Weigth = 80, Active = True\<rparr>,
      \<lparr>ID_b = 1, Name = [], Weigth = 20, Active = True\<rparr>]"
    by (simp add: active_backends_def route_of_def upt_rec)
  have g: "weight_gcd ?r = 20" by (simp add: weight_gcd_def a)
  have s: "weight_sum ?r = 100" by (simp add: weight_sum_def a)
  have h: "weight_sum ?r div weight_gcd ?r \<le> 255" unfolding g s by simp
  have four: "replicate 4 x = [x, x, x, x]" for x :: "Backend option"
    by (simp add: numeral_eq_Suc)
  have d: "concat (map (\<lambda>b. replicate (unat (Weigth b) div 20) (Some b)) (active_backends ?r))
     = [Some \<lparr>ID_b = 0, Name = [], Weigth = 80, Active = True\<rparr>,
        Some \<lparr>ID_b = 0, Name = [], Weigth = 80, Active = True\<rparr>,
        Some \<lparr>ID_b = 0, Name = [], Weigth = 80, Active = True\<rparr>,
        Some \<lparr>ID_b = 0, Name = [], Weigth = 80, Active = True\<rparr>,
        Some \<lparr>ID_b = 1, Name = [], Weigth = 20, Active = True\<rparr>]"
    unfolding a by (simp add: four)
  from updateWeights_distribution [OF h] obtain r' where
    "updateWeights ?r = Inr r'"
    "NextTargetDistr r' = concat (map (\<lambda>b. replicate (unat (Weigth b) div 20) (Some b)) (active_backends ?r))"
    "lenNextTargetDistr r' = length (NextTargetDistr r')"
    unfolding g by blast
  then show ?thesis using h unfolding d by simp
qed

text \<open>
  The claim as stated fails: one active backend of weight 0 gives the empty vector
  although not every backend is inactive.
\<close>

theorem updateWeights_empty_counterexample:
  "(\<exists>r'. updateWeights (route_of [(0, True)]) = Inr r' \<and> NextTargetDistr r' = [])
   \<and> (\<exists>b \<in> set (Backends_r (route_of [(0, True)])). Active b)"
  by (simp add: updateWeights_def route_of_def GGT_def)

text \<open>
  Outside the hypothesis of the theorem the 8-bit sum wraps: three active backends of
  weights 100, 99 and 98 give a vector of 41 slots, and filling it panics.
\<close>

lemma updateWeights_overflow:
  "updateWeights (route_of [(100, True), (99, True), (98, True)]) = Inl IndexOutOfRange"
  by code_simp



section \<open>Package route: the switchover\<close>


lemma Stop_empty_chan:
  "killChan s = 0 \<Longrightarrow>
   Stop upd s = Sent ((if Status s = ''Running'' then s\<lparr>Status := ''Stopped''\<rparr>
                  else if Rollback s \<and> Status s = ''Failed''
                  then s\<lparr>From := upd (From s) (fromRollbackWeight s),
                         To := upd (To s) (toRollbackWeight s)\<rparr>
                  else s)\<lparr>killChan := 1\<rparr>)"
  by (simp add: Stop_def chan_send_def Let_def)

lemma cycle_loop_inv:
  assumes "killChan s = 0" and "Status s = ''Running''"
  shows "\<exists>s'. cycle upd IsTrue s now rates toActive = NextSelect s' \<and> loop_inv s'"
proof (cases rates)
  case (Inl err)
  then show ?thesis using assms by (simp add: cycle_def loop_inv_def)
next
  case (Inr metrics)
  then show ?thesis using assms
    by (simp add: cycle_def Let_def after_Stop_def Stop_empty_chan loop_inv_def terminal_state_def
          UpdateWeight_def word_le_0_iff)
qed


lemma Start_concurrent_undisturbed:
  "Start_concurrent upd IsTrue s 0 0 0 evs = Start upd IsTrue s evs"
  by (simp add: Start_concurrent_def Start_entry_def Start_def)









text \<open>The loop does return once \<open>Stop\<close> has been called.\<close>

lemma Stop_signal_returns:
  assumes "killChan s = 0" and "StopCalled \<in> set evs"
  shows "\<exists>s'. Start upd IsTrue s evs = Returned s'"
proof -
  have "loop_inv s \<Longrightarrow> StopCalled \<in> set evs \<Longrightarrow> \<exists>s'. loop upd IsTrue s evs = Returned s'" for s
  proof (induction evs arbitrary: s)
    case Nil
    then show ?case by simp
  next
    case (Cons ev evs)
    show ?case
    proof (cases "killChan s = 0")
      case False
      then show ?thesis by simp
    next
      case True
      with Cons.prems(1) have run: "Status s = ''Running''" by (simp add: loop_inv_def)
      show ?thesis
      proof (cases ev)
        case StopCalled
        then show ?thesis using True run by (cases evs) (simp_all add: Stop_empty_chan)
      next
        case (TimerFires now rates toActive)
        obtain s1 where c: "cycle upd IsTrue s now rates toActive = NextSelect s1" and i: "loop_inv s1"
          using cycle_loop_inv [OF True run] by blast
        have "StopCalled \<in> set evs" using Cons.prems(2) TimerFires by simp
        then show ?thesis using Cons.IH [OF i] True TimerFires c by simp
      qed
    qed
  qed
  moreover have "loop_inv (s\<lparr>toRollbackWeight := Weigth (To s), fromRollbackWeight := Weigth (From s),
                    Status := ''Running''\<rparr>)"
    using assms(1) by (simp add: loop_inv_def)
  ultimately show ?thesis using assms(2) unfolding Start_def by blast
qed



lemmas run_simps = Start_def cycle_def Let_def after_Stop_def Stop_def chan_send_def
  evaluate_condition_def missed_def next_weights_def UpdateWeight_def GetActiveFor_def
  IsZero_def Before_def switchover0_def backendA_def backendB_def condition2xx_def
  rate_above_def healthy_def failing_def














text \<open>
  C2. The weights 10 and 90 are reached from 100 and 0 with a change of 30. In a cycle
  in which the one condition is latched, with these weights, the code hands
  \<open>10 - 30 = 236\<close> and \<open>90 + 30 = 120\<close> (in \<open>uint8\<close>) to \<open>UpdateWeight\<close>: with the
  setter the weight of \<open>From\<close> rises from 10 to 236 and that of \<open>To\<close> leaves the range
  up to 100, and the switchover reports \<open>Success\<close>; even with a setter that stores 100
  for a larger argument the weight of \<open>From\<close> rises from 10 to 100.
\<close>

theorem cycle_weights_wrap:
  "next_weights 10 90 30 = (236, 120)
   \<and> (\<exists>s'. Start UpdateWeight rate_above (switchover0 100 0 30 3 [condition2xx])
              [healthy 5, healthy 10, healthy 15] = Waiting s'
        \<and> Weigth (From s') = 10 \<and> Weigth (To s') = 90 \<and> Status s' = ''Running'')
   \<and> map Status_c (map (evaluate_condition rate_above [''2xxRate'' \<mapsto> 1] True 20)
         (Conditions latched0)) = [True]
   \<and> (\<exists>s'. cycle UpdateWeight rate_above latched0 20 (Inr [''2xxRate'' \<mapsto> 1]) True = NextSelect s'
        \<and> Weigth (From s') = 236 \<and> Weigth (To s') = 120 \<and> Status s' = ''Success'')
   \<and> (\<exists>s'. cycle UpdateWeight_saturating rate_above latched0 20 (Inr [''2xxRate'' \<mapsto> 1]) True
              = NextSelect s'
        \<and> Weigth (From s') = 100 \<and> Weigth (To s') = 100 \<and> Status s' = ''Success'')"
  by (simp add: run_simps latched0_def UpdateWeight_saturating_def)

subsection \<open>The earlier copy of the controller\<close>

text \<open>
  In the earlier copy, with the counter at 0 when \<open>Start\<close> is entered, at every point
  of every run the status is \<open>Failed\<close> exactly when \<open>AllowedFailures\<close> is positive and
  the counter has reached it; so there too \<open>AllowedFailures = 0\<close> never fails.
\<close>

lemma legacy_Stop_inv:
  "legacy_inv a s \<Longrightarrow> legacy_inv a (case legacy_Stop upd s of Sent s' \<Rightarrow> s' | BlockedOnSend s' \<Rightarrow> s')"
  by (auto simp: legacy_inv_def legacy_Stop_def Let_def chan_send_def)

lemma legacy_inv_Conditions: "legacy_inv a (s\<lparr>Conditions := cs\<rparr>) = legacy_inv a s"
  by (simp add: legacy_inv_def)

lemma legacy_conditions_inv:
  "legacy_inv a s \<Longrightarrow> legacy_holds (legacy_inv a) (legacy_conditions upd IsTrue metrics now s seen cs)"
proof (induction cs arbitrary: s seen)
  case Nil
  then show ?case by (simp add: legacy_holds_def legacy_inv_Conditions)
next
  case (Cons condition rest)
  show ?case
  proof (cases "IsTrue condition metrics")
    case (Inl err)
    then show ?thesis by (simp add: legacy_holds_def)
  next
    case (Inr status)
    show ?thesis
    proof (cases "status \<and> Active (To s)")
      case True
      then show ?thesis using Inr Cons.IH [OF Cons.prems] by simp
    next
      case False
      let ?s1 = "s\<lparr>FailureCounter := FailureCounter s + 1\<rparr>"
      show ?thesis
      proof (cases "FailureCounter s + 1 = AllowedFailures s")
        case eq: True
        have i: "legacy_inv a (?s1\<lparr>Status := ''Failed''\<rparr>)"
          using Cons.prems eq by (auto simp: legacy_inv_def)
        from legacy_Stop_inv [OF i, of upd] show ?thesis
          using Inr False eq Cons.IH
          by (auto simp: Let_def legacy_holds_def legacy_inv_Conditions split: stop_result.splits)
      next
        case ne: False
        have i: "legacy_inv a ?s1" using Cons.prems ne by (auto simp: legacy_inv_def)
        show ?thesis using Inr False ne Cons.IH [OF i] by (auto simp: Let_def)
      qed
    qed
  qed
qed

lemma legacy_cycle_inv:
  assumes "legacy_inv a s"
  shows "legacy_holds (legacy_inv a) (legacy_cycle upd IsTrue s now rates toActive)"
proof (cases rates)
  case (Inl err)
  then show ?thesis using assms by (simp add: legacy_cycle_def legacy_holds_def)
next
  case (Inr metrics)
  have i: "legacy_inv a (s\<lparr>To := (To s)\<lparr>Active := toActive\<rparr>\<rparr>)"
    using assms by (simp add: legacy_inv_def)
  from legacy_conditions_inv [OF i, of upd IsTrue metrics now "[]" "Conditions s"]
  show ?thesis
  proof (cases "legacy_conditions upd IsTrue metrics now (s\<lparr>To := (To s)\<lparr>Active := toActive\<rparr>\<rparr>) [] (Conditions s)")
    case (Goes s1)
    assume "legacy_holds (legacy_inv a) (legacy_conditions upd IsTrue metrics now (s\<lparr>To := (To s)\<lparr>Active := toActive\<rparr>\<rparr>) [] (Conditions s))"
    then have i1: "legacy_inv a s1" using Goes by (simp add: legacy_holds_def)
    let ?s4 = "s1\<lparr>From := upd (From s1) (fst (next_weights (Weigth (From s1)) (Weigth (To s1)) (WeightChange s1))),
                  To := upd (To s1) (snd (next_weights (Weigth (From s1)) (Weigth (To s1)) (WeightChange s1))),
                  Conditions := map (\<lambda>c. c\<lparr>TriggerTime := 0, Status_c := False\<rparr>) (Conditions s1)\<rparr>"
    have i4: "legacy_inv a ?s4" using i1 by (simp add: legacy_inv_def)
    from legacy_Stop_inv [OF i4, of upd] i1 i4 show ?thesis
      using Inr Goes
      by (auto simp: legacy_cycle_def Let_def legacy_holds_def split: stop_result.splits)
  next
    case (StuckInStop s1)
    assume "legacy_holds (legacy_inv a) (legacy_conditions upd IsTrue metrics now (s\<lparr>To := (To s)\<lparr>Active := toActive\<rparr>\<rparr>) [] (Conditions s))"
    then show ?thesis using Inr StuckInStop by (simp add: legacy_cycle_def legacy_holds_def)
  next
    case (Panics err)
    then show ?thesis using Inr by (simp add: legacy_cycle_def legacy_holds_def)
  qed
qed

lemma legacy_loop_inv:
  "legacy_inv a s \<Longrightarrow> legacy_final (legacy_inv a) (legacy_loop upd IsTrue sleeping s evs)"
proof (induction evs arbitrary: s sleeping)
  case Nil
  then show ?case by (simp add: legacy_final_def legacy_inv_def)
next
  case (Cons ev evs)
  show ?case
  proof (cases "\<not> sleeping \<and> killChan s > 0")
    case True
    with Cons.prems show ?thesis by (simp add: legacy_final_def legacy_inv_def)
  next
    case False
    show ?thesis
    proof (cases ev)
      case StopCalled
      from legacy_Stop_inv [OF Cons.prems, of upd] show ?thesis
        using False StopCalled Cons.IH by (auto simp: legacy_Stop_outside_def)
    next
      case (TimerFires now rates toActive)
      from legacy_cycle_inv [OF Cons.prems, of upd IsTrue now rates toActive] show ?thesis
        using False TimerFires Cons.IH
        by (auto simp: legacy_final_def legacy_holds_def split: legacy_result.splits)
    qed
  qed
qed

lemma legacy_Start_failure_counting:
  assumes "FailureCounter s = 0"
  shows "legacy_final (\<lambda>s'. Status s' = ''Failed'' \<longleftrightarrow>
            0 < AllowedFailures s \<and> AllowedFailures s \<le> FailureCounter s')
          (legacy_Start upd IsTrue s evs)"
proof -
  let ?s0 = "s\<lparr>toRollbackWeight := Weigth (To s), fromRollbackWeight := Weigth (From s),
                Status := ''Running''\<rparr>"
  have "legacy_inv (AllowedFailures s) ?s0" using assms by (simp add: legacy_inv_def)
  from legacy_loop_inv [OF this, of upd IsTrue False evs] show ?thesis
    by (auto simp: legacy_Start_def legacy_final_def legacy_inv_def split: legacy_outcome.splits)
qed

end
